theory Spec2Isabelle
  imports Complex_Main "HOL-Library.Sublist" "HOL-Library.Multiset"
begin

section \<open>Python values used by the retrieval core\<close>

text \<open>
  Python exceptions are values: a function that can raise returns \<open>error + 'a\<close>, with
  \<open>Inl\<close> carrying the exception. Only \<open>ValueError\<close> is raised by the code modelled
  here (by \<open>chunk_pdf_text\<close> itself, and by \<open>np.dot\<close> on vectors of different length).
\<close>

datatype error = ValueError string

text \<open>
  A slice \<open>xs[lo:hi]\<close> of Python: a negative bound counts from the end, and both bounds
  are clamped to \<open>0 .. len(xs)\<close>; the slice is empty when the bounds cross.
\<close>

definition py_slice_index :: "nat \<Rightarrow> int \<Rightarrow> nat" where
  "py_slice_index n i = (if i < 0 then nat (max 0 (int n + i)) else min n (nat i))"

definition py_slice :: "'a list \<Rightarrow> int \<Rightarrow> int \<Rightarrow> 'a list" where
  "py_slice xs lo hi =
     take (py_slice_index (length xs) hi - py_slice_index (length xs) lo)
       (drop (py_slice_index (length xs) lo) xs)"

text \<open>\<open>xs[lo:]\<close> and \<open>xs[:hi]\<close>.\<close>

definition py_slice_from :: "'a list \<Rightarrow> int \<Rightarrow> 'a list" where
  "py_slice_from xs lo = drop (py_slice_index (length xs) lo) xs"

definition py_slice_to :: "'a list \<Rightarrow> int \<Rightarrow> 'a list" where
  "py_slice_to xs hi = take (py_slice_index (length xs) hi) xs"

section \<open>Chunker (src/utils/chunking.py)\<close>

text \<open>
  The \<open>while start < length\<close> loop of \<open>chunk_pdf_text\<close>, with its three variables
  \<open>start\<close>, \<open>chunks\<close> and the constant \<open>length = len(pdf_text)\<close>. Nothing in the loop
  itself makes \<open>start\<close> grow, so the loop is a partial function: \<open>None\<close> is the run
  that never returns.
\<close>

partial_function (option) chunk_loop ::
  "string \<Rightarrow> int \<Rightarrow> int \<Rightarrow> int \<Rightarrow> string list \<Rightarrow> string list option" where
  "chunk_loop pdf_text chunk_size overlap start chunks =
     (if start < int (length pdf_text)
      then chunk_loop pdf_text chunk_size overlap (start + (chunk_size - overlap))
             (chunks @ [py_slice pdf_text start
                          (min (start + chunk_size) (int (length pdf_text)))])
      else Some chunks)"

declare chunk_loop.simps [code]

definition chunk_pdf_text :: "string \<Rightarrow> int \<Rightarrow> int \<Rightarrow> (error + string list) option" where
  "chunk_pdf_text pdf_text chunk_size overlap =
     (if chunk_size \<le> overlap
      then Some (Inl (ValueError ''chunk_size must be greater than overlap''))
      else map_option Inr (chunk_loop pdf_text chunk_size overlap 0 []))"

text \<open>
  The reconstruction the specification speaks of: the first chunk, followed by every
  later chunk without its first \<open>overlap\<close> characters (\<open>c[overlap:]\<close>).
\<close>

fun reconstruct :: "int \<Rightarrow> string list \<Rightarrow> string" where
  "reconstruct overlap [] = []"
| "reconstruct overlap (c # cs) = c @ concat (map (\<lambda>d. py_slice_from d overlap) cs)"

definition full_chunk :: "int \<Rightarrow> string \<Rightarrow> bool" where
  "full_chunk chunk_size c = (int (length c) = chunk_size)"

definition all_but_last_full :: "int \<Rightarrow> string list \<Rightarrow> bool" where
  "all_but_last_full chunk_size chunks = list_all (full_chunk chunk_size) (butlast chunks)"

text \<open>
  The windows the loop emits from offset \<open>s\<close> on, as a total function: window width
  \<open>c\<close>, stride \<open>st\<close>. It is only used to reason about \<open>chunk_loop\<close>.
\<close>

function windows :: "'a list \<Rightarrow> nat \<Rightarrow> nat \<Rightarrow> nat \<Rightarrow> 'a list list" where
  "windows xs c st s =
     (if s < length xs \<and> 0 < st then take c (drop s xs) # windows xs c st (s + st) else [])"
  by pat_completeness auto
termination
  by (relation "measure (\<lambda>(xs, c, st, s). length xs - s)") auto

declare windows.simps [simp del]

section \<open>Strings and floats\<close>

text \<open>
  \<open>str(n)\<close> for a non-negative integer \<open>n\<close>, as the f-strings of the code render the
  indices they interpolate.
\<close>

definition digit_char :: "nat \<Rightarrow> char" where
  "digit_char d = ''0123456789'' ! d"

fun str_nat :: "nat \<Rightarrow> string" where
  "str_nat n = (if n < 10 then [digit_char n] else str_nat (n div 10) @ [digit_char (n mod 10)])"

declare str_nat.simps [simp del]

text \<open>\<open>sep.join(xs)\<close>.\<close>

fun str_join :: "string \<Rightarrow> string list \<Rightarrow> string" where
  "str_join sep [] = []"
| "str_join sep [x] = x"
| "str_join sep (x # y # ys) = x @ sep @ str_join sep (y # ys)"

definition newline :: string where
  "newline = [CHR 0x0A]"

text \<open>
  A Python float is a binary64 value of IEEE 754: a finite number, an infinity or NaN.
  A finite float is the real number it denotes, so comparisons between finite floats are
  exact; a zero has no sign here. What is proved for every real number holds for the
  floats among them; the numbers of the examples are floats. A float literal denotes
  the nearest binary64 value: \<open>0.05\<close> is \<open>3602879701896397 / 2^56\<close> and \<open>0.02\<close> is
  \<open>5764607523034235 / 2^58\<close>.
\<close>

datatype pyfloat = Fin real | PInf | NInf | NaN

definition float_0_05 :: real where
  "float_0_05 = 3602879701896397 / 2 ^ 56"

definition float_0_02 :: real where
  "float_0_02 = 5764607523034235 / 2 ^ 58"

text \<open>
  \<open>f"{x:.2f}"\<close> for a finite float: the decimal with two fractional digits nearest to
  the exact value of \<open>x\<close>, an exact tie going to the even neighbour; a negative value keeps
  its sign even when it rounds to zero. An infinity is rendered \<open>inf\<close> or \<open>-inf\<close> and NaN
  is rendered \<open>nan\<close>.
\<close>

definition round_half_even :: "real \<Rightarrow> int" where
  "round_half_even x =
     (if x - of_int \<lfloor>x\<rfloor> < 1 / 2 then \<lfloor>x\<rfloor>
      else if 1 / 2 < x - of_int \<lfloor>x\<rfloor> then \<lfloor>x\<rfloor> + 1
      else if even \<lfloor>x\<rfloor> then \<lfloor>x\<rfloor> else \<lfloor>x\<rfloor> + 1)"

definition two_digits :: "nat \<Rightarrow> string" where
  "two_digits n = [digit_char (n div 10), digit_char (n mod 10)]"

definition format_2f :: "real \<Rightarrow> string" where
  "format_2f x =
     (if x < 0 then ''-'' else []) @
     str_nat (nat (round_half_even (\<bar>x\<bar> * 100)) div 100) @ ''.'' @
     two_digits (nat (round_half_even (\<bar>x\<bar> * 100)) mod 100)"

fun float_format_2f :: "pyfloat \<Rightarrow> string" where
  "float_format_2f (Fin x) = format_2f x"
| "float_format_2f PInf = ''inf''"
| "float_format_2f NInf = ''-inf''"
| "float_format_2f NaN = ''nan''"

text \<open>
  An arithmetic operation on finite floats returns the exact result rounded to a float:
  to the nearest one, ties to the even significand, and to an infinity when the result
  is too large. \<open>binary64_grid\<close> rounds a real number to 53 significant bits over its own
  exponent, with at least \<open>2^-1074\<close> between two values, so that small results are
  subnormal or zero; \<open>binary64\<close> is the rounding of the machine, which gives an infinity
  when the number so rounded reaches \<open>2^1024\<close>.
\<close>

definition binary64_exponent :: "real \<Rightarrow> int" where
  "binary64_exponent x = max \<lfloor>log 2 \<bar>x\<bar>\<rfloor> (- 1022)"

definition binary64_grid :: "real \<Rightarrow> real" where
  "binary64_grid x =
     of_int (round_half_even (x / 2 powr (of_int (binary64_exponent x) - 52)))
       * 2 powr (of_int (binary64_exponent x) - 52)"

definition binary64 :: "real \<Rightarrow> pyfloat" where
  "binary64 x =
     (if 2 powr 1024 \<le> \<bar>binary64_grid x\<bar> then (if 0 < x then PInf else NInf)
      else Fin (binary64_grid x))"

text \<open>
  Addition, multiplication, division and square root of floats. On infinities and NaN
  they follow IEEE 754: NaN propagates, and \<open>inf - inf\<close>, \<open>0 * inf\<close>, \<open>inf / inf\<close>, \<open>0 / 0\<close>
  and the square root of a negative number are NaN. numpy divides a non-zero float by
  zero to an infinity, with a warning and no exception.
\<close>

fun fl_add :: "pyfloat \<Rightarrow> pyfloat \<Rightarrow> pyfloat" where
  "fl_add (Fin x) (Fin y) = binary64 (x + y)"
| "fl_add (Fin x) PInf = PInf"
| "fl_add (Fin x) NInf = NInf"
| "fl_add PInf (Fin y) = PInf"
| "fl_add PInf PInf = PInf"
| "fl_add PInf NInf = NaN"
| "fl_add NInf (Fin y) = NInf"
| "fl_add NInf PInf = NaN"
| "fl_add NInf NInf = NInf"
| "fl_add NaN b = NaN"
| "fl_add a NaN = NaN"

fun fl_mul :: "pyfloat \<Rightarrow> pyfloat \<Rightarrow> pyfloat" where
  "fl_mul (Fin x) (Fin y) = binary64 (x * y)"
| "fl_mul (Fin x) PInf = (if x = 0 then NaN else if 0 < x then PInf else NInf)"
| "fl_mul (Fin x) NInf = (if x = 0 then NaN else if 0 < x then NInf else PInf)"
| "fl_mul PInf (Fin y) = (if y = 0 then NaN else if 0 < y then PInf else NInf)"
| "fl_mul PInf PInf = PInf"
| "fl_mul PInf NInf = NInf"
| "fl_mul NInf (Fin y) = (if y = 0 then NaN else if 0 < y then NInf else PInf)"
| "fl_mul NInf PInf = NInf"
| "fl_mul NInf NInf = PInf"
| "fl_mul NaN b = NaN"
| "fl_mul a NaN = NaN"

fun fl_div :: "pyfloat \<Rightarrow> pyfloat \<Rightarrow> pyfloat" where
  "fl_div (Fin x) (Fin y) =
     (if y = 0 then (if x = 0 then NaN else if 0 < x then PInf else NInf)
      else binary64 (x / y))"
| "fl_div (Fin x) PInf = Fin 0"
| "fl_div (Fin x) NInf = Fin 0"
| "fl_div PInf (Fin y) = (if 0 \<le> y then PInf else NInf)"
| "fl_div PInf PInf = NaN"
| "fl_div PInf NInf = NaN"
| "fl_div NInf (Fin y) = (if 0 \<le> y then NInf else PInf)"
| "fl_div NInf PInf = NaN"
| "fl_div NInf NInf = NaN"
| "fl_div NaN b = NaN"
| "fl_div a NaN = NaN"

fun fl_sqrt :: "pyfloat \<Rightarrow> pyfloat" where
  "fl_sqrt (Fin x) = (if x < 0 then NaN else binary64 (sqrt x))"
| "fl_sqrt PInf = PInf"
| "fl_sqrt NInf = NaN"
| "fl_sqrt NaN = NaN"

text \<open>
  \<open>a < b\<close>, \<open>a <= b\<close> and \<open>a == b\<close> on floats: every comparison with NaN is false, also
  \<open>nan <= nan\<close> and \<open>nan == nan\<close>.
\<close>

fun fl_lt :: "pyfloat \<Rightarrow> pyfloat \<Rightarrow> bool" where
  "fl_lt (Fin x) (Fin y) = (x < y)"
| "fl_lt (Fin x) PInf = True"
| "fl_lt (Fin x) NInf = False"
| "fl_lt PInf b = False"
| "fl_lt NInf (Fin y) = True"
| "fl_lt NInf PInf = True"
| "fl_lt NInf NInf = False"
| "fl_lt NaN b = False"
| "fl_lt a NaN = False"

definition fl_le :: "pyfloat \<Rightarrow> pyfloat \<Rightarrow> bool" where
  "fl_le a b = (fl_lt a b \<or> (a = b \<and> a \<noteq> NaN))"


section \<open>Vector store (src/utils/vector_store.py)\<close>

text \<open>
  A Python \<open>dict\<close> keeps its keys in insertion order, and \<open>find_similar_chunks\<close> scans
  the store in that order, so the mapping is an association list: assigning to a key
  that is present replaces the value in place, assigning to a new key appends, and
  \<open>del\<close> removes the key.
\<close>

fun dict_set :: "'k \<Rightarrow> 'v \<Rightarrow> ('k \<times> 'v) list \<Rightarrow> ('k \<times> 'v) list" where
  "dict_set k v [] = [(k, v)]"
| "dict_set k v (kv # d) = (if fst kv = k then (k, v) # d else kv # dict_set k v d)"

definition dict_del :: "'k \<Rightarrow> ('k \<times> 'v) list \<Rightarrow> ('k \<times> 'v) list" where
  "dict_del k d = filter (\<lambda>kv. fst kv \<noteq> k) d"

definition startswith :: "string \<Rightarrow> string \<Rightarrow> bool" where
  "startswith s p = prefix p s"

text \<open>
  The metadata dict of an entry: the three keys the code reads, each of which may be
  absent (\<open>add_embedding\<close> stores \<open>{}\<close> when no metadata is given).
\<close>

record metadata =
  md_pdf_id :: "string option"
  md_chunk_index :: "int option"
  md_text :: "string option"

record entry =
  vector :: "real list"
  metadata :: metadata

text \<open>
  The store object. \<open>save_embeddings\<close> writes the mapping to the file at
  \<open>storage_path\<close> and swallows every error, so it never changes the object and never
  raises; the file itself is outside the model.
\<close>

record vector_store =
  storage_path :: string
  embeddings :: "(string \<times> entry) list"

definition save_embeddings :: "vector_store \<Rightarrow> vector_store" where
  "save_embeddings vs = vs"

definition add_embedding :: "string \<Rightarrow> real list \<Rightarrow> metadata option \<Rightarrow> vector_store \<Rightarrow> vector_store" where
  "add_embedding key vec md vs =
     save_embeddings (vs\<lparr>embeddings :=
       dict_set key
         \<lparr>vector = vec,
          metadata = (case md of
                        None \<Rightarrow> \<lparr>md_pdf_id = None, md_chunk_index = None, md_text = None\<rparr>
                      | Some m \<Rightarrow> m)\<rparr>
         (embeddings vs)\<rparr>)"

definition get_embedding_data :: "vector_store \<Rightarrow> string \<Rightarrow> entry option" where
  "get_embedding_data vs key = map_of (embeddings vs) key"

definition get_all_embeddings :: "vector_store \<Rightarrow> string list" where
  "get_all_embeddings vs = map fst (embeddings vs)"

definition clear_embeddings :: "vector_store \<Rightarrow> vector_store" where
  "clear_embeddings vs = save_embeddings (vs\<lparr>embeddings := []\<rparr>)"

text \<open>
  \<open>remove_embeddings_by_prefix\<close>: the keys to remove are collected first, then deleted
  one by one.
\<close>

definition remove_embeddings_by_prefix :: "string \<Rightarrow> vector_store \<Rightarrow> vector_store" where
  "remove_embeddings_by_prefix p vs =
     save_embeddings
       (fold (\<lambda>k s. s\<lparr>embeddings := dict_del k (embeddings s)\<rparr>)
          (filter (\<lambda>k. startswith k p) (map fst (embeddings vs))) vs)"

section \<open>Embedding service (src/services/embedding_service.py)\<close>

text \<open>
  The embedding provider (\<open>genai.embed_content\<close>) is a parameter: for a task type and a
  text it returns a vector, or raises (\<open>None\<close>).
\<close>

datatype task_type = RetrievalDocument | RetrievalQuery

type_synonym embed_content = "task_type \<Rightarrow> string \<Rightarrow> real list option"

definition np_zeros :: "nat \<Rightarrow> real list" where
  "np_zeros n = replicate n 0"

definition generate_embeddings :: "embed_content \<Rightarrow> string list \<Rightarrow> real list list" where
  "generate_embeddings provider texts =
     map (\<lambda>t. case provider RetrievalDocument t of Some v \<Rightarrow> v | None \<Rightarrow> np_zeros 768) texts"

definition generate_query_embedding :: "embed_content \<Rightarrow> string \<Rightarrow> real list" where
  "generate_query_embedding provider query =
     (case provider RetrievalQuery query of Some v \<Rightarrow> v | None \<Rightarrow> np_zeros 768)"

definition clear_pdf_embeddings :: "string \<Rightarrow> vector_store \<Rightarrow> vector_store" where
  "clear_pdf_embeddings pdf_id vs = remove_embeddings_by_prefix (pdf_id @ ''_'') vs"

definition chunk_key :: "string \<Rightarrow> nat \<Rightarrow> string" where
  "chunk_key pdf_id idx = pdf_id @ ''_chunk_'' @ str_nat idx"

definition store_pdf_embeddings ::
  "embed_content \<Rightarrow> string \<Rightarrow> string list \<Rightarrow> vector_store \<Rightarrow> vector_store" where
  "store_pdf_embeddings provider pdf_id chunks vs =
     fold (\<lambda>(idx, chunk, vec).
             add_embedding (chunk_key pdf_id idx) vec
               (Some \<lparr>md_pdf_id = Some pdf_id, md_chunk_index = Some (int idx),
                      md_text = Some chunk\<rparr>))
       (enumerate 0 (zip chunks (generate_embeddings provider chunks)))
       (clear_pdf_embeddings pdf_id vs)"

text \<open>
  The record that \<open>store_pdf_embeddings\<close> writes for an index, a chunk and its vector,
  with its key.
\<close>

definition stored_entry :: "string \<Rightarrow> nat \<times> string \<times> real list \<Rightarrow> string \<times> entry" where
  "stored_entry doc ice =
     (chunk_key doc (fst ice),
      \<lparr>vector = snd (snd ice),
       metadata = \<lparr>md_pdf_id = Some doc, md_chunk_index = Some (int (fst ice)),
                   md_text = Some (fst (snd ice))\<rparr>\<rparr>)"

text \<open>
  numpy on one-dimensional arrays of finite floats: \<open>a.any()\<close>; \<open>np.dot\<close>, which raises
  on arrays of different length and otherwise accumulates the rounded products; and
  \<open>np.linalg.norm\<close>, the square root of the dot product of the array with itself. The
  order in which \<open>np.dot\<close> adds up the products is left to right here. A product or a sum
  that overflows is an infinity, and what is computed from it can be NaN.
\<close>

definition np_any :: "real list \<Rightarrow> bool" where
  "np_any a = list_ex (\<lambda>x. x \<noteq> 0) a"

definition np_dot_sum :: "real list \<Rightarrow> real list \<Rightarrow> pyfloat" where
  "np_dot_sum a b =
     foldl (\<lambda>s xy. fl_add s (fl_mul (Fin (fst xy)) (Fin (snd xy)))) (Fin 0) (zip a b)"

definition np_dot :: "real list \<Rightarrow> real list \<Rightarrow> error + pyfloat" where
  "np_dot a b =
     (if length a \<noteq> length b then Inl (ValueError ''shapes not aligned'')
      else Inr (np_dot_sum a b))"

definition np_linalg_norm :: "real list \<Rightarrow> pyfloat" where
  "np_linalg_norm a = fl_sqrt (np_dot_sum a a)"

definition cosine_similarity :: "real list \<Rightarrow> real list \<Rightarrow> error + pyfloat" where
  "cosine_similarity a b =
     (if \<not> np_any a \<or> \<not> np_any b then Inr (Fin 0)
      else if fl_mul (np_linalg_norm a) (np_linalg_norm b) = Fin 0 then Inr (Fin 0)
      else (case np_dot a b of
              Inl e \<Rightarrow> Inl e
            | Inr d \<Rightarrow> Inr (fl_div d (fl_mul (np_linalg_norm a) (np_linalg_norm b)))))"

record retrieval_result =
  key :: string
  similarity :: pyfloat
  chunk_text :: string
  chunk_index :: int
  pdf_id :: string

text \<open>\<open>if pdf_id and not key.startswith(f"{pdf_id}_")\<close>: an empty \<open>pdf_id\<close> is falsy.\<close>

definition out_of_scope :: "string option \<Rightarrow> string \<Rightarrow> bool" where
  "out_of_scope scope k =
     (case scope of None \<Rightarrow> False | Some p \<Rightarrow> p \<noteq> [] \<and> \<not> startswith k (p @ ''_''))"

definition make_result :: "string \<Rightarrow> pyfloat \<Rightarrow> metadata \<Rightarrow> retrieval_result" where
  "make_result k sim md =
     \<lparr>key = k, similarity = sim,
      chunk_text = (case md_text md of None \<Rightarrow> [] | Some t \<Rightarrow> t),
      chunk_index = (case md_chunk_index md of None \<Rightarrow> 0 | Some i \<Rightarrow> i),
      pdf_id = (case md_pdf_id md of None \<Rightarrow> [] | Some p \<Rightarrow> p)\<rparr>"

text \<open>The scan of \<open>find_similar_chunks\<close> over the keys of the store.\<close>

fun scan_keys ::
  "vector_store \<Rightarrow> real list \<Rightarrow> string option \<Rightarrow> string list \<Rightarrow> retrieval_result list
     \<Rightarrow> error + retrieval_result list" where
  "scan_keys vs q_vec scope [] results = Inr results"
| "scan_keys vs q_vec scope (k # ks) results =
     (if out_of_scope scope k then scan_keys vs q_vec scope ks results
      else (case get_embedding_data vs k of
              None \<Rightarrow> scan_keys vs q_vec scope ks results
            | Some data \<Rightarrow>
                (case cosine_similarity q_vec (vector data) of
                   Inl e \<Rightarrow> Inl e
                 | Inr sim \<Rightarrow>
                     scan_keys vs q_vec scope ks
                       (results @ [make_result k sim (metadata data)]))))"

text \<open>
  \<open>results.sort(key=lambda r: r["similarity"], reverse=True)\<close>. The sort compares keys
  with \<open><\<close> only and is stable, also when reversed. When \<open><\<close> orders the keys totally, as
  it does floats without NaN, there is one list it can return: the elements in
  descending order of key, those of equal key in their given order. That list is built
  here by insertion: each element, from the last to the first, goes before the first
  element that it is not less than. With a NaN among the keys \<open><\<close> is not a total order:
  \<open>list.sort\<close> still returns a permutation, but which one depends on the runs and merges
  of its algorithm. What is proved below about the order is proved for keys without NaN;
  the example with a NaN is a list in which no element is less than its right
  neighbour, which \<open>list.sort\<close> and the insertion both leave as it is.
\<close>

fun insert_desc :: "retrieval_result \<Rightarrow> retrieval_result list \<Rightarrow> retrieval_result list" where
  "insert_desc x [] = [x]"
| "insert_desc x (y # ys) =
     (if fl_lt (similarity x) (similarity y) then y # insert_desc x ys else x # y # ys)"

definition sort_by_similarity_desc :: "retrieval_result list \<Rightarrow> retrieval_result list" where
  "sort_by_similarity_desc results = foldr insert_desc results []"

definition find_similar_chunks ::
  "embed_content \<Rightarrow> vector_store \<Rightarrow> string \<Rightarrow> string option \<Rightarrow> int
     \<Rightarrow> error + retrieval_result list" where
  "find_similar_chunks provider vs query scope top_k =
     (case scan_keys vs (generate_query_embedding provider query) scope (get_all_embeddings vs) [] of
        Inl e \<Rightarrow> Inl e
      | Inr results \<Rightarrow> Inr (py_slice_to (sort_by_similarity_desc results) top_k))"






section \<open>Generation client (src/services/gemini_client.py)\<close>

record chat_message =
  role :: "string option"
  content :: "string option"

definition system_instruction :: string where
  "system_instruction =
     ''You are an assistant answering questions about an uploaded PDF. '' @
     ''Base answers only on provided context. If unknown, say you lack the info.''"

definition render_message :: "chat_message \<Rightarrow> string" where
  "render_message m =
     (case role m of None \<Rightarrow> ''user'' | Some r \<Rightarrow> r) @ '': '' @
     (case content m of None \<Rightarrow> [] | Some c \<Rightarrow> c)"

definition history_truthy :: "chat_message list option \<Rightarrow> bool" where
  "history_truthy h = (case h of None \<Rightarrow> False | Some ms \<Rightarrow> ms \<noteq> [])"

definition build_prompt :: "string \<Rightarrow> string \<Rightarrow> chat_message list option \<Rightarrow> string" where
  "build_prompt user_prompt context chat_history =
     str_join newline
       ([system_instruction] @
        (if context \<noteq> [] then [newline @ ''Context:'' @ newline @ context] else []) @
        (if history_truthy chat_history
         then [newline @ ''Recent conversation:''] @
              map render_message (py_slice_from (the chat_history) (- 5))
         else []) @
        [newline @ ''Question: '' @ user_prompt @ newline @ ''Answer:''])"

text \<open>
  The generation provider (\<open>model.generate_content(prompt, stream=True)\<close>) is a
  parameter: the call raises (\<open>Inl\<close>, with the text of the exception), or returns an
  iterator. What the iterator does when it is consumed is a list of items: a chunk
  object, given by its \<open>text\<close> attribute when it has one, or an exception raised
  by the iterator, after which nothing more is pulled.
\<close>

datatype stream_item = Chunk "string option" | Raise string

type_synonym generate_content = "string \<Rightarrow> string + stream_item list"

text \<open>The body of the \<open>for\<close> loop of \<open>stream_response\<close>, under its \<open>try\<close>.\<close>

fun consume :: "stream_item list \<Rightarrow> string list" where
  "consume [] = []"
| "consume (Chunk t # items) =
     (case t of
        None \<Rightarrow> consume items
      | Some txt \<Rightarrow> (if txt \<noteq> [] then txt # consume items else consume items))"
| "consume (Raise e # items) = [''[Error] '' @ e]"

text \<open>The fragments the generator yields, in order; it ends after the last one.\<close>

definition gemini_stream_response ::
  "generate_content \<Rightarrow> string \<Rightarrow> string \<Rightarrow> chat_message list option \<Rightarrow> string list" where
  "gemini_stream_response model prompt context chat_history =
     (case model (build_prompt prompt context chat_history) of
        Inl e \<Rightarrow> [''[Error] '' @ e]
      | Inr items \<Rightarrow> consume items)"

section \<open>RAG service (src/services/rag_service.py)\<close>

definition render_chunk :: "nat \<Rightarrow> retrieval_result \<Rightarrow> string" where
  "render_chunk idx c =
     ''[Chunk '' @ str_nat idx @ '' sim='' @ float_format_2f (similarity c) @ '']'' @ newline
       @ chunk_text c"

text \<open>The loop of \<open>_format_context\<close> over \<open>enumerate(chunks, start=1)\<close>.\<close>

fun format_lines :: "nat \<Rightarrow> retrieval_result list \<Rightarrow> string list \<Rightarrow> string list" where
  "format_lines idx [] lines = lines"
| "format_lines idx (c # cs) lines =
     format_lines (Suc idx) cs
       (if fl_lt (Fin float_0_05) (similarity c) then lines @ [render_chunk idx c] else lines)"

definition format_context :: "retrieval_result list \<Rightarrow> string" where
  "format_context chunks =
     (if chunks = [] then []
      else str_join (newline @ newline) (format_lines 1 chunks []))"

text \<open>
  An indexed chunk that the loop keeps, the line the loop writes for it, and a chunk the
  loop drops because its similarity is at most the threshold.
\<close>

definition retained :: "nat \<times> retrieval_result \<Rightarrow> bool" where
  "retained ic = fl_lt (Fin float_0_05) (similarity (snd ic))"

definition render_entry :: "nat \<times> retrieval_result \<Rightarrow> string" where
  "render_entry ic = render_chunk (fst ic) (snd ic)"

definition below_threshold :: "retrieval_result \<Rightarrow> bool" where
  "below_threshold c = fl_le (similarity c) (Fin float_0_05)"

text \<open>
  \<open>RAGService.stream_response\<close> retrieves and formats before it asks the client for the
  generator, so an exception of the retrieval is raised to the caller (\<open>Inl\<close>).
\<close>

definition rag_stream_response ::
  "embed_content \<Rightarrow> vector_store \<Rightarrow> generate_content \<Rightarrow> string \<Rightarrow> string
     \<Rightarrow> chat_message list option \<Rightarrow> error + string list" where
  "rag_stream_response provider vs model user_query doc_id chat_history =
     (case find_similar_chunks provider vs user_query (Some doc_id) 3 of
        Inl e \<Rightarrow> Inl e
      | Inr chunks \<Rightarrow>
          Inr (gemini_stream_response model user_query (format_context chunks) chat_history))"

section \<open>Example data\<close>

text \<open>
  A provider that embeds every text as the vector \<open>[1.0]\<close>, an empty store, and a store
  that holds a record left over from an earlier ingestion of \<open>doc\<close> and a record of
  another document. They are the concrete inputs of the examples below.
\<close>

definition unit_provider :: embed_content where
  "unit_provider task s = Some [1]"

definition empty_store :: vector_store where
  "empty_store = \<lparr>storage_path = ''pdf_embeddings.pkl'', embeddings = []\<rparr>"

definition stale_store :: vector_store where
  "stale_store =
     \<lparr>storage_path = ''pdf_embeddings.pkl'',
      embeddings =
        [(''doc_chunk_7'', \<lparr>vector = [0, 1], metadata = \<lparr>md_pdf_id = Some ''doc'',
            md_chunk_index = Some 7, md_text = Some ''stale''\<rparr>\<rparr>),
         (''other_chunk_0'', \<lparr>vector = [1, 0], metadata = \<lparr>md_pdf_id = Some ''other'',
            md_chunk_index = Some 0, md_text = Some ''kept''\<rparr>\<rparr>)]\<rparr>"

text \<open>
  A store with four records of \<open>doc\<close> and one of another document; against the query
  vector \<open>[1.0]\<close> their similarities are 1, 1 (the other document), -1, 1 and 0.
\<close>

definition ranked_store :: vector_store where
  "ranked_store =
     \<lparr>storage_path = ''pdf_embeddings.pkl'',
      embeddings =
        [(''doc_chunk_0'', \<lparr>vector = [1], metadata = \<lparr>md_pdf_id = Some ''doc'',
            md_chunk_index = Some 0, md_text = Some ''first''\<rparr>\<rparr>),
         (''zzz_chunk_0'', \<lparr>vector = [1], metadata = \<lparr>md_pdf_id = Some ''zzz'',
            md_chunk_index = Some 0, md_text = Some ''other''\<rparr>\<rparr>),
         (''doc_chunk_1'', \<lparr>vector = [- 1], metadata = \<lparr>md_pdf_id = Some ''doc'',
            md_chunk_index = Some 1, md_text = Some ''second''\<rparr>\<rparr>),
         (''doc_chunk_2'', \<lparr>vector = [2], metadata = \<lparr>md_pdf_id = Some ''doc'',
            md_chunk_index = Some 2, md_text = Some ''third''\<rparr>\<rparr>),
         (''doc_chunk_3'', \<lparr>vector = [0], metadata = \<lparr>md_pdf_id = Some ''doc'',
            md_chunk_index = Some 3, md_text = Some ''fourth''\<rparr>\<rparr>)]\<rparr>"





text \<open>
  A generation provider whose call always raises, and a retrieval result with one chunk
  above the threshold, one at the float \<open>0.02\<close> and one more above it; \<open>7/8\<close> and \<open>1/8\<close>
  are floats that lie exactly between two decimals of two digits.
\<close>

definition failing_model :: generate_content where
  "failing_model prompt = Inl ''quota exceeded''"

definition mixed_chunks :: "retrieval_result list" where
  "mixed_chunks =
     [\<lparr>key = ''doc_chunk_4'', similarity = Fin (7 / 8), chunk_text = ''first'', chunk_index = 4,
        pdf_id = ''doc''\<rparr>,
      \<lparr>key = ''doc_chunk_0'', similarity = Fin float_0_02, chunk_text = ''second'', chunk_index = 0,
        pdf_id = ''doc''\<rparr>,
      \<lparr>key = ''doc_chunk_9'', similarity = Fin (1 / 8), chunk_text = ''third'', chunk_index = 9,
        pdf_id = ''doc''\<rparr>]"

section \<open>Properties of rounding\<close>

subsection \<open>Rounding to the grid of binary64\<close>

lemma round_half_even_of_int: "round_half_even (of_int n) = n"
  by (simp add: round_half_even_def)

lemma round_half_even_close: "\<bar>x - of_int (round_half_even x)\<bar> \<le> 1 / 2"
proof -
  have "0 \<le> x - of_int \<lfloor>x\<rfloor>" and "x - of_int \<lfloor>x\<rfloor> < 1"
    by linarith+
  then show ?thesis
    by (auto simp: round_half_even_def abs_if) linarith+
qed


lemma binary64_grid_zero: "binary64_grid 0 = 0"
  by (simp add: binary64_grid_def round_half_even_def)

lemma binary64_exponent_pow2:
  assumes "- 1022 \<le> k"
  shows "binary64_exponent (2 powr of_int k) = k" and "binary64_exponent (- (2 powr of_int k)) = k"
  using assms by (simp_all add: binary64_exponent_def)


lemma pow2_52: "(2::real) powr 52 = of_int (2 ^ 52)"
proof -
  have "(2::real) powr 52 = 2 powr (of_nat 52)" by simp
  also have "\<dots> = 2 ^ 52" by (subst powr_realpow) simp_all
  finally show ?thesis by simp
qed

lemma binary64_grid_pow2:
  assumes "- 1022 \<le> k"
  shows "binary64_grid (2 powr of_int k) = 2 powr of_int k"
proof -
  have "2 powr of_int k / 2 powr (of_int k - 52) = (2::real) powr 52"
    by (simp add: powr_diff[symmetric])
  then have "round_half_even (2 powr of_int k / 2 powr (of_int k - 52)) = 2 ^ 52"
    by (simp only: pow2_52 round_half_even_of_int)
  moreover have "of_int (2 ^ 52) * 2 powr (of_int k - 52) = (2::real) powr of_int k"
    by (simp only: pow2_52[symmetric] powr_add[symmetric]) simp
  ultimately show ?thesis
    using assms by (simp only: binary64_grid_def binary64_exponent_pow2)
qed

lemma binary64_grid_neg_pow2:
  assumes "- 1022 \<le> k"
  shows "binary64_grid (- (2 powr of_int k)) = - (2 powr of_int k)"
proof -
  have "- (2 powr of_int k) / 2 powr (of_int k - 52) = - ((2::real) powr 52)"
    by (simp add: powr_diff[symmetric])
  also have "\<dots> = of_int (- (2 ^ 52))"
    by (simp only: pow2_52 of_int_minus)
  finally have "round_half_even (- (2 powr of_int k) / 2 powr (of_int k - 52)) = - (2 ^ 52)"
    by (simp only: round_half_even_of_int)
  moreover have "of_int (- (2 ^ 52)) * 2 powr (of_int k - 52) = - ((2::real) powr of_int k)"
  proof -
    have "of_int (2 ^ 52) * 2 powr (of_int k - 52) = (2::real) powr of_int k"
      by (simp only: pow2_52[symmetric] powr_add[symmetric]) simp
    then show ?thesis by simp
  qed
  ultimately show ?thesis
    using assms by (simp only: binary64_grid_def binary64_exponent_pow2)
qed








subsection \<open>Rounding with overflow\<close>


lemma binary64_zero: "binary64 0 = Fin 0"
  by (simp add: binary64_def binary64_grid_zero)

lemma binary64_pow2:
  assumes "- 1022 \<le> k" and "k < 1024"
  shows "binary64 (2 powr of_int k) = Fin (2 powr of_int k)"
    and "binary64 (- (2 powr of_int k)) = Fin (- (2 powr of_int k))"
proof -
  have "(2::real) powr of_int k < 2 powr 1024"
    using assms(2) by (intro powr_less_mono) simp_all
  then show "binary64 (2 powr of_int k) = Fin (2 powr of_int k)"
    and "binary64 (- (2 powr of_int k)) = Fin (- (2 powr of_int k))"
    using assms(1) by (simp_all add: binary64_def binary64_grid_pow2 binary64_grid_neg_pow2)
qed



lemma binary64_one: "binary64 1 = Fin 1"
  using binary64_pow2(1)[of 0] by simp

lemma binary64_minus_one: "binary64 (- 1) = Fin (- 1)"
  using binary64_pow2(2)[of 0] by simp

lemma binary64_two: "binary64 2 = Fin 2"
  using binary64_pow2(1)[of 1] by simp

lemma binary64_four: "binary64 4 = Fin 4"
proof -
  have "(2::real) powr of_int 2 = 4"
    by (simp add: powr_numeral)
  with binary64_pow2(1)[of 2] show ?thesis by simp
qed





subsection \<open>The quotient of a float by the rounded square of its rounded square root\<close>




section \<open>Properties of the chunker\<close>

subsection \<open>The loop returns, and what it returns\<close>

lemma py_slice_window:
  assumes "s < length xs" and "0 \<le> c"
  shows "py_slice xs (int s) (min (int s + c) (int (length xs))) = take (nat c) (drop s xs)"
proof -
  have lo: "py_slice_index (length xs) (int s) = s"
    using assms by (simp add: py_slice_index_def)
  have hi: "py_slice_index (length xs) (min (int s + c) (int (length xs)))
              = min (s + nat c) (length xs)"
    using assms by (simp add: py_slice_index_def min_def) linarith
  have "take (min (s + nat c) (length xs) - s) (drop s xs) = take (nat c) (drop s xs)"
    using assms by (simp add: min_def)
  then show ?thesis
    by (simp add: py_slice_def lo hi)
qed

lemma chunk_loop_windows:
  assumes "0 \<le> chunk_size" and "overlap < chunk_size"
  shows "chunk_loop pdf_text chunk_size overlap (int s) acc
           = Some (acc @ windows pdf_text (nat chunk_size) (nat (chunk_size - overlap)) s)"
  using assms
proof (induction pdf_text "nat chunk_size" "nat (chunk_size - overlap)" s arbitrary: acc
       rule: windows.induct)
  case (1 xs s)
  show ?case
  proof (cases "s < length xs")
    case True
    have st: "0 < nat (chunk_size - overlap)"
      using "1.prems" by simp
    have nxt: "int s + (chunk_size - overlap) = int (s + nat (chunk_size - overlap))"
      using "1.prems" by simp
    have "chunk_loop xs chunk_size overlap (int s) acc
            = chunk_loop xs chunk_size overlap (int (s + nat (chunk_size - overlap)))
                (acc @ [take (nat chunk_size) (drop s xs)])"
      using True "1.prems"
      by (subst chunk_loop.simps) (simp add: py_slice_window nxt del: of_nat_add)
    also have "\<dots> = Some ((acc @ [take (nat chunk_size) (drop s xs)])
                 @ windows xs (nat chunk_size) (nat (chunk_size - overlap))
                     (s + nat (chunk_size - overlap)))"
      using True st "1.prems" by (intro "1.hyps") simp_all
    also have "\<dots> = Some (acc @ windows xs (nat chunk_size) (nat (chunk_size - overlap)) s)"
      using True st by (subst (2) windows.simps) simp
    finally show ?thesis .
  next
    case False
    then show ?thesis
      by (subst chunk_loop.simps, subst windows.simps) simp
  qed
qed

lemma chunk_pdf_text_windows:
  assumes "0 \<le> overlap" and "overlap < chunk_size"
  shows "chunk_pdf_text pdf_text chunk_size overlap
           = Some (Inr (windows pdf_text (nat chunk_size) (nat (chunk_size - overlap)) 0))"
proof -
  have "chunk_loop pdf_text chunk_size overlap (int 0) []
          = Some ([] @ windows pdf_text (nat chunk_size) (nat (chunk_size - overlap)) 0)"
    using assms by (intro chunk_loop_windows) simp_all
  then show ?thesis
    using assms by (simp add: chunk_pdf_text_def)
qed

subsection \<open>The windows\<close>

lemma windows_concat_drop:
  assumes "0 < st"
  shows "concat (map (drop ov) (windows xs (ov + st) st s)) = drop (s + ov) xs"
  using assms
proof (induction xs "ov + st" st s rule: windows.induct)
  case (1 xs st s)
  show ?case
  proof (cases "s < length xs")
    case True
    have "concat (map (drop ov) (windows xs (ov + st) st s))
            = drop ov (take (ov + st) (drop s xs))
              @ concat (map (drop ov) (windows xs (ov + st) st (s + st)))"
      using True "1.prems" by (subst windows.simps) simp
    also have "concat (map (drop ov) (windows xs (ov + st) st (s + st))) = drop (s + st + ov) xs"
      using True "1.prems" "1.hyps" by simp
    also have "drop ov (take (ov + st) (drop s xs)) = take st (drop (s + ov) xs)"
      by (simp add: drop_take add.commute)
    also have "take st (drop (s + ov) xs) @ drop (s + st + ov) xs = drop (s + ov) xs"
      by (metis add.assoc add.commute append_take_drop_id drop_drop)
    finally show ?thesis .
  next
    case False
    then show ?thesis
      by (subst windows.simps) simp
  qed
qed

lemma reconstruct_windows:
  assumes "0 < st"
  shows "reconstruct (int ov) (windows xs (ov + st) st 0) = xs"
proof (cases xs)
  case Nil
  then show ?thesis by (subst windows.simps) simp
next
  case (Cons a as)
  have sl: "(\<lambda>d::string. py_slice_from d (int ov)) = drop ov"
    by (rule ext) (simp add: py_slice_from_def py_slice_index_def min_def)
  have "windows xs (ov + st) st 0 = take (ov + st) xs # windows xs (ov + st) st st"
    using Cons assms by (subst windows.simps) simp
  then have "reconstruct (int ov) (windows xs (ov + st) st 0)
               = take (ov + st) xs @ concat (map (drop ov) (windows xs (ov + st) st st))"
    by (simp add: sl)
  also have "\<dots> = take (ov + st) xs @ drop (st + ov) xs"
    using assms by (simp add: windows_concat_drop)
  also have "\<dots> = xs"
    by (simp add: add.commute)
  finally show ?thesis .
qed

lemma windows_nth:
  assumes "i < length (windows xs c st s)"
  shows "windows xs c st s ! i = take c (drop (s + i * st) xs) \<and> s + i * st < length xs"
  using assms
proof (induction xs c st s arbitrary: i rule: windows.induct)
  case (1 xs c st s)
  have ne: "s < length xs \<and> 0 < st"
    using "1.prems" by (subst (asm) windows.simps) (simp split: if_splits)
  then have unf: "windows xs c st s = take c (drop s xs) # windows xs c st (s + st)"
    by (subst windows.simps) simp
  show ?case
  proof (cases i)
    case 0
    then show ?thesis using ne unf by simp
  next
    case (Suc j)
    then have "j < length (windows xs c st (s + st))"
      using "1.prems" unf by simp
    from "1.IH"[OF ne this] show ?thesis
      using Suc unf by (simp add: algebra_simps)
  qed
qed

lemma windows_length:
  assumes "0 < st"
  shows "length (windows xs c st s) = (length xs - s + st - 1) div st"
  using assms
proof (induction xs c st s rule: windows.induct)
  case (1 xs c st s)
  show ?case
  proof (cases "s < length xs")
    case True
    have "length (windows xs c st s) = Suc (length (windows xs c st (s + st)))"
      using True "1.prems" by (subst windows.simps) simp
    also have "\<dots> = Suc ((length xs - (s + st) + st - 1) div st)"
      using True "1.prems" "1.IH" by simp
    also have "\<dots> = (length xs - s + st - 1) div st"
    proof (cases "s + st \<le> length xs")
      case True
      then have "length xs - s + st - 1 = (length xs - (s + st) + st - 1) + st"
        using "1.prems" by simp
      then have "(length xs - s + st - 1) div st = ((length xs - (s + st) + st - 1) + st) div st"
        by (rule arg_cong)
      also have "\<dots> = Suc ((length xs - (s + st) + st - 1) div st)"
        using "1.prems" by (simp only: div_add_self2)
      finally show ?thesis by simp
    next
      case False
      then have a: "length xs - (s + st) + st - 1 < st" using "1.prems" by simp
      have b: "st \<le> length xs - s + st - 1" using True by simp
      have c: "length xs - s + st - 1 < 2 * st" using False "1.prems" by simp
      have "(length xs - s + st - 1) div st = 1"
        using b c "1.prems"
        by (metis One_nat_def Suc_1 div_nat_eqI mult.commute mult.right_neutral mult_Suc)
      then show ?thesis using a by simp
    qed
    finally show ?thesis .
  next
    case False
    then have "length xs - s + st - 1 < st" using "1.prems" by simp
    then show ?thesis using False
      by (subst windows.simps) simp
  qed
qed

subsection \<open>The claims about the chunker\<close>

lemma chunk_pdf_text_nat:
  assumes "0 < st"
  shows "chunk_pdf_text xs (int (ov + st)) (int ov) = Some (Inr (windows xs (ov + st) st 0))"
proof -
  have "chunk_pdf_text xs (int (ov + st)) (int ov)
          = Some (Inr (windows xs (nat (int (ov + st))) (nat (int (ov + st) - int ov)) 0))"
    using assms by (intro chunk_pdf_text_windows) simp_all
  moreover have "nat (int (ov + st)) = ov + st" and "nat (int (ov + st) - int ov) = st"
    by simp_all
  ultimately show ?thesis by (simp only:)
qed

lemma py_slice_nat:
  "py_slice xs (int a) (int a + int c) = take c (drop a xs)"
proof -
  have "py_slice_index (length xs) (int a) = min (length xs) a"
    by (simp add: py_slice_index_def)
  moreover have "py_slice_index (length xs) (int a + int c) = min (length xs) (a + c)"
    by (simp add: py_slice_index_def nat_add_distrib)
  moreover have "take (min (length xs) (a + c) - min (length xs) a) (drop (min (length xs) a) xs)
                   = take c (drop a xs)"
    by (cases "a \<le> length xs") (auto simp: min_def)
  ultimately show ?thesis
    by (simp add: py_slice_def)
qed

text \<open>
  Claim C1 as stated fails. With \<open>chunk_size = 4\<close> and \<open>overlap = 2\<close> the text
  \<open>abcde\<close> is cut into \<open>abcd\<close>, \<open>cde\<close> and \<open>e\<close>: the reconstruction holds, but the middle
  chunk is not the last one and has three characters, not four.
\<close>

theorem chunk_pdf_text_short_middle_chunk:
  "(0::int) < 2 \<and> (2::int) < 4
   \<and> chunk_pdf_text ''abcde'' 4 2 = Some (Inr [''abcd'', ''cde'', ''e''])
   \<and> reconstruct 2 [''abcd'', ''cde'', ''e''] = ''abcde''
   \<and> \<not> all_but_last_full 4 [''abcd'', ''cde'', ''e'']"
  by (simp add: chunk_pdf_text_def chunk_loop.simps py_slice_def py_slice_index_def
        py_slice_from_def all_but_last_full_def full_chunk_def)

text \<open>
  Claim C1, amended. For \<open>chunk_size > overlap > 0\<close> and every text,
  \<open>chunk_pdf_text\<close> returns a chunk list whose concatenation with the first \<open>overlap\<close>
  characters of every later chunk removed is the text. Chunk \<open>i\<close> (from 0) is the slice
  of the text from \<open>i * (chunk_size - overlap)\<close> of width \<open>chunk_size\<close>; it is never empty
  and its length is \<open>chunk_size\<close> or, when fewer characters remain from its start,
  the number of characters that remain. So a chunk is shorter than \<open>chunk_size\<close> exactly
  when it runs to the end of the text, which several trailing chunks can do.
\<close>

theorem chunk_pdf_text_covers:
  assumes "0 < overlap" and "overlap < chunk_size"
  shows "\<exists>chunks. chunk_pdf_text pdf_text chunk_size overlap = Some (Inr chunks)
           \<and> reconstruct overlap chunks = pdf_text
           \<and> (\<forall>i<length chunks.
                 chunks ! i = py_slice pdf_text (int i * (chunk_size - overlap))
                                (int i * (chunk_size - overlap) + chunk_size)
               \<and> int (length (chunks ! i))
                   = min chunk_size (int (length pdf_text) - int i * (chunk_size - overlap))
               \<and> 0 < length (chunks ! i))"
proof -
  define ov where "ov = nat overlap"
  define st where "st = nat (chunk_size - overlap)"
  have o: "overlap = int ov" and c: "chunk_size = int (ov + st)" and st: "0 < st"
    using assms by (simp_all add: ov_def st_def)
  have d: "chunk_size - overlap = int st"
    by (simp add: o c)
  let ?ws = "windows pdf_text (ov + st) st 0"
  have run: "chunk_pdf_text pdf_text chunk_size overlap = Some (Inr ?ws)"
    unfolding o c using st by (rule chunk_pdf_text_nat)
  have rec: "reconstruct overlap ?ws = pdf_text"
    unfolding o using st by (rule reconstruct_windows)
  have each: "?ws ! i = py_slice pdf_text (int i * (chunk_size - overlap))
                          (int i * (chunk_size - overlap) + chunk_size)
              \<and> int (length (?ws ! i))
                  = min chunk_size (int (length pdf_text) - int i * (chunk_size - overlap))
              \<and> 0 < length (?ws ! i)"
    if "i < length ?ws" for i
  proof -
    from windows_nth[OF that]
    have w: "?ws ! i = take (ov + st) (drop (i * st) pdf_text)" and lt: "i * st < length pdf_text"
      by simp_all
    have "py_slice pdf_text (int (i * st)) (int (i * st) + int (ov + st))
            = take (ov + st) (drop (i * st) pdf_text)"
      by (rule py_slice_nat)
    then have s: "?ws ! i = py_slice pdf_text (int i * (chunk_size - overlap))
                              (int i * (chunk_size - overlap) + chunk_size)"
      unfolding d unfolding c by (simp add: w)
    have "length (?ws ! i) = min (ov + st) (length pdf_text - i * st)"
      by (simp add: w min.commute)
    moreover have "int (length pdf_text - i * st) = int (length pdf_text) - int i * int st"
      using lt by (simp add: of_nat_diff)
    ultimately have l: "int (length (?ws ! i))
                    = min chunk_size (int (length pdf_text) - int i * (chunk_size - overlap))"
      unfolding d unfolding c by (simp add: min_def)
    have p: "0 < length (?ws ! i)"
      using lt st by (simp add: w)
    from s l p show ?thesis by blast
  qed
  from run rec each show ?thesis by blast
qed

text \<open>The theorem of C1 at the text \<open>abcde\<close>, \<open>chunk_size = 4\<close>, \<open>overlap = 2\<close>.\<close>

theorem chunk_pdf_text_covers_witness:
  "(0::int) < 2 \<and> (2::int) < 4
   \<and> (\<exists>chunks. chunk_pdf_text ''abcde'' 4 2 = Some (Inr chunks)
         \<and> reconstruct 2 chunks = ''abcde''
         \<and> (\<forall>i<length chunks.
               chunks ! i = py_slice ''abcde'' (int i * (4 - 2)) (int i * (4 - 2) + 4)
             \<and> int (length (chunks ! i)) = min 4 (int (length ''abcde'') - int i * (4 - 2))
             \<and> 0 < length (chunks ! i)))"
proof -
  have a: "(0::int) < 2" and b: "(2::int) < 4" by simp_all
  from chunk_pdf_text_covers[OF a b, of "''abcde''"] a b show ?thesis by blast
qed

lemma chunk_pdf_text_250:
  assumes "length xs = 250"
  shows "chunk_pdf_text xs 100 20
           = Some (Inr [take 100 xs, take 100 (drop 80 xs), take 100 (drop 160 xs),
                        take 100 (drop 240 xs)])"
proof -
  have "chunk_pdf_text xs (int (20 + 80)) (int 20) = Some (Inr (windows xs (20 + 80) 80 0))"
    by (rule chunk_pdf_text_nat) simp
  moreover have "windows xs 100 80 0 = [take 100 xs, take 100 (drop 80 xs), take 100 (drop 160 xs),
                        take 100 (drop 240 xs)]"
    using assms by (simp add: windows.simps)
  ultimately show ?thesis by simp
qed

text \<open>
  Claim C2 as stated fails: a text of 250 characters is cut into four chunks, not three.
  After the chunk at offset 160 the loop variable is 240, still below 250, so the slice
  \<open>[240:250]\<close> is emitted as well.
\<close>

theorem chunk_pdf_text_250_three_chunks_counterexample:
  "length (replicate 250 (CHR ''a'')) = 250
   \<and> chunk_pdf_text (replicate 250 (CHR ''a'')) 100 20
       = Some (Inr [replicate 100 (CHR ''a''), replicate 100 (CHR ''a''),
                    replicate 90 (CHR ''a''), replicate 10 (CHR ''a'')])
   \<and> length [replicate 100 (CHR ''a''), replicate 100 (CHR ''a''),
              replicate 90 (CHR ''a''), replicate 10 (CHR ''a'')] \<noteq> 3"
  by (simp add: chunk_pdf_text_250)

text \<open>
  Claim C2, amended. For every text of length 250, \<open>chunk_pdf_text(text, 100, 20)\<close>
  returns exactly four chunks, the slices \<open>[0:100]\<close>, \<open>[80:180]\<close>, \<open>[160:250]\<close> and
  \<open>[240:250]\<close>, of lengths 100, 100, 90 and 10: the last two are shorter than the chunk
  size.
\<close>

theorem chunk_pdf_text_250_four_chunks:
  assumes "length pdf_text = 250"
  shows "chunk_pdf_text pdf_text 100 20
           = Some (Inr [py_slice pdf_text 0 100, py_slice pdf_text 80 180,
                        py_slice pdf_text 160 250, py_slice pdf_text 240 250])
         \<and> map length [py_slice pdf_text 0 100, py_slice pdf_text 80 180,
                        py_slice pdf_text 160 250, py_slice pdf_text 240 250]
             = [100, 100, 90, 10]"
proof -
  have "py_slice pdf_text 0 100 = take 100 pdf_text"
    and "py_slice pdf_text 80 180 = take 100 (drop 80 pdf_text)"
    and "py_slice pdf_text 160 250 = take 100 (drop 160 pdf_text)"
    and "py_slice pdf_text 240 250 = take 100 (drop 240 pdf_text)"
    using assms by (simp_all add: py_slice_def py_slice_index_def)
  then show ?thesis
    using assms by (simp add: chunk_pdf_text_250)
qed

text \<open>The theorem of C2 at a text of 250 equal characters.\<close>

theorem chunk_pdf_text_250_four_chunks_witness:
  "length (replicate 250 (CHR ''x'')) = 250
   \<and> chunk_pdf_text (replicate 250 (CHR ''x'')) 100 20
       = Some (Inr [py_slice (replicate 250 (CHR ''x'')) 0 100,
                    py_slice (replicate 250 (CHR ''x'')) 80 180,
                    py_slice (replicate 250 (CHR ''x'')) 160 250,
                    py_slice (replicate 250 (CHR ''x'')) 240 250])
   \<and> map length [py_slice (replicate 250 (CHR ''x'')) 0 100,
                  py_slice (replicate 250 (CHR ''x'')) 80 180,
                  py_slice (replicate 250 (CHR ''x'')) 160 250,
                  py_slice (replicate 250 (CHR ''x'')) 240 250]
       = [100, 100, 90, 10]"
proof -
  have l: "length (replicate 250 (CHR ''x'')) = 250" by simp
  from chunk_pdf_text_250_four_chunks[OF l] l show ?thesis by blast
qed

text \<open>
  Claim C7. For every text, the empty one included, \<open>chunk_pdf_text\<close> with
  \<open>chunk_size \<le> overlap\<close> returns (the value is \<open>Some\<close>) by raising the \<open>ValueError\<close>
  of the configuration check; the loop, whose step \<open>chunk_size - overlap\<close> would not be
  positive, is never entered and no chunk is produced.
\<close>

theorem chunk_pdf_text_invalid_configuration:
  assumes "chunk_size \<le> overlap"
  shows "chunk_pdf_text pdf_text chunk_size overlap
           = Some (Inl (ValueError ''chunk_size must be greater than overlap''))"
  using assms by (simp add: chunk_pdf_text_def)

text \<open>The theorem of C7 at the empty text with \<open>chunk_size = overlap = 5\<close>.\<close>

theorem chunk_pdf_text_invalid_configuration_witness:
  "(5::int) \<le> 5
   \<and> chunk_pdf_text [] 5 5 = Some (Inl (ValueError ''chunk_size must be greater than overlap''))"
proof -
  have h: "(5::int) \<le> 5" by simp
  from chunk_pdf_text_invalid_configuration[OF h, of "[]"] h show ?thesis by blast
qed

section \<open>Properties of the vector store and of ingestion\<close>

subsection \<open>Keys\<close>

lemma digit_char_inj:
  assumes "a < 10" and "b < 10" and "digit_char a = digit_char b"
  shows "a = b"
proof -
  have "distinct ''0123456789''" by simp
  moreover have "a < length ''0123456789''" and "b < length ''0123456789''"
    using assms by simp_all
  ultimately show ?thesis
    using assms(3) unfolding digit_char_def by (simp only: nth_eq_iff_index_eq)
qed

lemma str_nat_nonempty: "str_nat n \<noteq> []"
  by (subst str_nat.simps) simp

lemma str_nat_small: "n < 10 \<Longrightarrow> str_nat n = [digit_char n]"
  by (subst str_nat.simps) simp

lemma str_nat_large: "\<not> n < 10 \<Longrightarrow> str_nat n = str_nat (n div 10) @ [digit_char (n mod 10)]"
  by (subst str_nat.simps) simp

lemma str_nat_inj: "str_nat m = str_nat n \<Longrightarrow> m = n"
proof (induction m arbitrary: n rule: str_nat.induct)
  case (1 m)
  show ?case
  proof (cases "m < 10")
    case True
    then have m: "str_nat m = [digit_char m]" by (rule str_nat_small)
    have "n < 10"
    proof (rule ccontr)
      assume "\<not> n < 10"
      then have "str_nat n = str_nat (n div 10) @ [digit_char (n mod 10)]"
        by (rule str_nat_large)
      with m "1.prems" have "str_nat (n div 10) = []" by simp
      then show False by (simp add: str_nat_nonempty)
    qed
    then have "str_nat n = [digit_char n]" by (rule str_nat_small)
    with m "1.prems" have "digit_char m = digit_char n" by simp
    with True \<open>n < 10\<close> show ?thesis by (rule digit_char_inj)
  next
    case False
    then have m: "str_nat m = str_nat (m div 10) @ [digit_char (m mod 10)]"
      by (rule str_nat_large)
    have nl: "\<not> n < 10"
    proof
      assume "n < 10"
      then have "str_nat n = [digit_char n]" by (rule str_nat_small)
      with m "1.prems" have "str_nat (m div 10) = []" by simp
      then show False by (simp add: str_nat_nonempty)
    qed
    then have "str_nat n = str_nat (n div 10) @ [digit_char (n mod 10)]"
      by (rule str_nat_large)
    with m "1.prems" have a: "str_nat (m div 10) = str_nat (n div 10)"
      and b: "digit_char (m mod 10) = digit_char (n mod 10)"
      by simp_all
    from "1.IH"[OF False a] have q: "m div 10 = n div 10" .
    have r: "m mod 10 = n mod 10"
      by (rule digit_char_inj[OF _ _ b]) simp_all
    from q r show ?thesis
      by (metis div_mult_mod_eq)
  qed
qed

lemma chunk_key_inj: "chunk_key doc i = chunk_key doc j \<Longrightarrow> i = j"
  by (simp add: chunk_key_def str_nat_inj)

lemma chunk_key_startswith: "startswith (chunk_key doc i) (doc @ ''_'')"
  by (simp add: chunk_key_def startswith_def)

lemma fold_dict_del:
  "embeddings (fold (\<lambda>k s. s\<lparr>embeddings := dict_del k (embeddings s)\<rparr>) ks vs)
     = filter (\<lambda>kv. fst kv \<notin> set ks) (embeddings vs)"
proof (induction ks arbitrary: vs)
  case Nil
  show ?case by simp
next
  case (Cons k ks)
  have "filter (\<lambda>kv. fst kv \<notin> set ks) (dict_del k (embeddings vs))
          = filter (\<lambda>kv. fst kv \<notin> set (k # ks)) (embeddings vs)"
    by (auto simp: dict_del_def intro: filter_cong)
  then show ?case by (simp add: Cons.IH)
qed

lemma remove_embeddings_by_prefix_filter:
  "embeddings (remove_embeddings_by_prefix p vs)
     = filter (\<lambda>kv. \<not> startswith (fst kv) p) (embeddings vs)"
proof -
  have "filter (\<lambda>kv. fst kv \<notin> set (filter (\<lambda>k. startswith k p) (map fst (embeddings vs))))
          (embeddings vs)
        = filter (\<lambda>kv. \<not> startswith (fst kv) p) (embeddings vs)"
    by (rule filter_cong) auto
  then show ?thesis
    by (simp add: remove_embeddings_by_prefix_def save_embeddings_def fold_dict_del)
qed

lemma dict_set_fresh: "k \<notin> fst ` set d \<Longrightarrow> dict_set k v d = d @ [(k, v)]"
  by (induction d) auto

subsection \<open>Ingestion replaces the records of a document\<close>

lemma stored_entry_keys:
  "map fst (map (stored_entry doc) (enumerate 0 xs)) = map (chunk_key doc) [0..<length xs]"
proof -
  have *: "map (\<lambda>x. chunk_key doc (fst x)) ys = map (chunk_key doc) (map fst ys)"
    for ys :: "(nat \<times> 'a) list"
    by (simp add: comp_def)
  have "map fst (map (stored_entry doc) (enumerate 0 xs))
          = map (\<lambda>x. chunk_key doc (fst x)) (enumerate 0 xs)"
    by (simp add: stored_entry_def comp_def)
  also have "\<dots> = map (chunk_key doc) (map fst (enumerate 0 xs))"
    by (rule *)
  also have "\<dots> = map (chunk_key doc) [0..<length xs]"
    by (simp only: map_fst_enumerate add_0)
  finally show ?thesis .
qed

lemma fold_add_embedding:
  assumes "\<forall>j\<ge>n. chunk_key doc j \<notin> fst ` set (embeddings vs)"
  shows "embeddings
           (fold (\<lambda>(idx, chunk, vec).
                    add_embedding (chunk_key doc idx) vec
                      (Some \<lparr>md_pdf_id = Some doc, md_chunk_index = Some (int idx),
                             md_text = Some chunk\<rparr>))
              (enumerate n xs) vs)
         = embeddings vs @ map (stored_entry doc) (enumerate n xs)"
  using assms
proof (induction xs arbitrary: n vs)
  case Nil
  show ?case by simp
next
  case (Cons x xs)
  obtain c v where x: "x = (c, v)" by (cases x)
  let ?vs' = "add_embedding (chunk_key doc n) v
                (Some \<lparr>md_pdf_id = Some doc, md_chunk_index = Some (int n), md_text = Some c\<rparr>) vs"
  have fresh: "chunk_key doc n \<notin> fst ` set (embeddings vs)"
    using Cons.prems by simp
  then have e: "embeddings ?vs' = embeddings vs @ [stored_entry doc (n, c, v)]"
    by (simp add: add_embedding_def save_embeddings_def dict_set_fresh stored_entry_def)
  have "\<forall>j\<ge>Suc n. chunk_key doc j \<notin> fst ` set (embeddings ?vs')"
  proof (intro allI impI)
    fix j assume j: "Suc n \<le> j"
    then have "chunk_key doc j \<notin> fst ` set (embeddings vs)"
      using Cons.prems by simp
    moreover have "chunk_key doc j \<noteq> chunk_key doc n"
      using j chunk_key_inj[of doc j n] by auto
    ultimately show "chunk_key doc j \<notin> fst ` set (embeddings ?vs')"
      by (simp add: e stored_entry_def)
  qed
  from Cons.IH[OF this] show ?case
    by (simp add: x e)
qed

lemma store_pdf_embeddings_embeddings:
  "embeddings (store_pdf_embeddings provider doc chunks vs)
     = filter (\<lambda>kv. \<not> startswith (fst kv) (doc @ ''_'')) (embeddings vs)
       @ map (stored_entry doc) (enumerate 0 (zip chunks (generate_embeddings provider chunks)))"
proof -
  have "\<forall>j\<ge>0. chunk_key doc j \<notin> fst ` set (embeddings (clear_pdf_embeddings doc vs))"
    using chunk_key_startswith[of doc]
    by (auto simp: clear_pdf_embeddings_def remove_embeddings_by_prefix_filter)
  from fold_add_embedding[OF this]
  show ?thesis
    by (simp add: store_pdf_embeddings_def)
       (simp add: clear_pdf_embeddings_def remove_embeddings_by_prefix_filter)
qed

lemma map_of_old_keys:
  assumes "\<not> startswith k p"
  shows "map_of (filter (\<lambda>kv. \<not> startswith (fst kv) p) d) k = map_of d k"
  using assms by (induction d) auto

lemma map_of_removed_keys:
  assumes "startswith k p"
  shows "map_of (filter (\<lambda>kv. \<not> startswith (fst kv) p) d) k = None"
  using assms by (induction d) auto

lemma map_of_stored_entries_other:
  assumes "\<not> startswith k (doc @ ''_'')"
  shows "map_of (map (stored_entry doc) xs) k = None"
proof -
  have "k \<notin> fst ` set (map (stored_entry doc) xs)"
    using assms chunk_key_startswith[of doc] by (auto simp: stored_entry_def)
  then show ?thesis by (simp add: map_of_eq_None_iff)
qed

lemma map_of_stored_entries:
  assumes "i < length xs"
  shows "map_of (map (stored_entry doc) (enumerate 0 xs)) (chunk_key doc i)
           = Some (snd (stored_entry doc (i, xs ! i)))"
proof -
  have d: "distinct (map fst (map (stored_entry doc) (enumerate 0 xs)))"
  proof -
    have "map fst (map (stored_entry doc) (enumerate 0 xs)) = map (chunk_key doc) [0..<length xs]"
      by (rule stored_entry_keys)
    moreover have "distinct (map (chunk_key doc) [0..<length xs])"
      by (auto simp: distinct_map inj_on_def dest: chunk_key_inj)
    ultimately show ?thesis by simp
  qed
  have "(i, xs ! i) \<in> set (enumerate 0 xs)"
    using assms by (simp add: in_set_enumerate_eq)
  then have "stored_entry doc (i, xs ! i) \<in> set (map (stored_entry doc) (enumerate 0 xs))"
    by simp
  then have "(chunk_key doc i, snd (stored_entry doc (i, xs ! i)))
               \<in> set (map (stored_entry doc) (enumerate 0 xs))"
    by (simp add: stored_entry_def)
  with d show ?thesis by (rule map_of_is_SomeI)
qed

text \<open>
  Claim C4. After \<open>store_pdf_embeddings(pdf_id, chunks)\<close> the keys of the store that
  start with \<open>pdf_id_\<close> are exactly \<open>pdf_id_chunk_0\<close>, ..., \<open>pdf_id_chunk_(n-1)\<close> for the
  \<open>n\<close> chunks given, each once; the record under \<open>pdf_id_chunk_i\<close> holds the embedding of
  chunk \<open>i\<close>, its index and its text. Whatever was stored under the prefix before is
  gone, and every record under another prefix is as it was.
\<close>

theorem store_pdf_embeddings_replaces:
  "filter (\<lambda>k. startswith k (doc @ ''_''))
       (get_all_embeddings (store_pdf_embeddings provider doc chunks vs))
     = map (chunk_key doc) [0..<length chunks]
   \<and> distinct (map (chunk_key doc) [0..<length chunks])
   \<and> (\<forall>i<length chunks.
         get_embedding_data (store_pdf_embeddings provider doc chunks vs) (chunk_key doc i)
           = Some \<lparr>vector = generate_embeddings provider chunks ! i,
                   metadata = \<lparr>md_pdf_id = Some doc, md_chunk_index = Some (int i),
                               md_text = Some (chunks ! i)\<rparr>\<rparr>)
   \<and> (\<forall>k. \<not> startswith k (doc @ ''_'') \<longrightarrow>
         get_embedding_data (store_pdf_embeddings provider doc chunks vs) k
           = get_embedding_data vs k)"
proof -
  let ?vs' = "store_pdf_embeddings provider doc chunks vs"
  let ?old = "filter (\<lambda>kv. \<not> startswith (fst kv) (doc @ ''_'')) (embeddings vs)"
  let ?zs = "zip chunks (generate_embeddings provider chunks)"
  let ?new = "map (stored_entry doc) (enumerate 0 ?zs)"
  have emb: "embeddings ?vs' = ?old @ ?new"
    by (rule store_pdf_embeddings_embeddings)
  have len: "length ?zs = length chunks"
    by (simp add: generate_embeddings_def)
  have newkeys: "map fst ?new = map (chunk_key doc) [0..<length chunks]"
    using len by (simp only: stored_entry_keys)
  have "filter (\<lambda>k. startswith k (doc @ ''_'')) (map fst ?old) = []"
    by (simp add: filter_empty_conv)
  moreover have "filter (\<lambda>k. startswith k (doc @ ''_'')) (map (chunk_key doc) [0..<length chunks])
                   = map (chunk_key doc) [0..<length chunks]"
    by (simp add: chunk_key_startswith)
  ultimately have keys:
    "filter (\<lambda>k. startswith k (doc @ ''_'')) (get_all_embeddings ?vs')
       = map (chunk_key doc) [0..<length chunks]"
    by (simp add: get_all_embeddings_def emb newkeys del: map_map)
  have dist: "distinct (map (chunk_key doc) [0..<length chunks])"
    by (auto simp: distinct_map inj_on_def dest: chunk_key_inj)
  have present: "get_embedding_data ?vs' (chunk_key doc i)
           = Some \<lparr>vector = generate_embeddings provider chunks ! i,
                   metadata = \<lparr>md_pdf_id = Some doc, md_chunk_index = Some (int i),
                               md_text = Some (chunks ! i)\<rparr>\<rparr>"
    if "i < length chunks" for i
  proof -
    have "map_of ?old (chunk_key doc i) = None"
      by (rule map_of_removed_keys) (rule chunk_key_startswith)
    moreover have "map_of ?new (chunk_key doc i) = Some (snd (stored_entry doc (i, ?zs ! i)))"
      using that len by (intro map_of_stored_entries) simp
    moreover have "?zs ! i = (chunks ! i, generate_embeddings provider chunks ! i)"
      using that by (simp add: generate_embeddings_def)
    ultimately show ?thesis
      by (simp add: get_embedding_data_def emb map_add_def stored_entry_def)
  qed
  have others: "get_embedding_data ?vs' k = get_embedding_data vs k"
    if "\<not> startswith k (doc @ ''_'')" for k
    using that
    by (simp add: get_embedding_data_def emb map_add_def map_of_stored_entries_other
          map_of_old_keys split: option.split)
  from keys dist present others show ?thesis by blast
qed

lemmas eval_defs =
  store_pdf_embeddings_def clear_pdf_embeddings_def remove_embeddings_by_prefix_def
  save_embeddings_def add_embedding_def generate_embeddings_def generate_query_embedding_def
  unit_provider_def empty_store_def stale_store_def dict_del_def startswith_def chunk_key_def
  str_nat.simps digit_char_def get_all_embeddings_def get_embedding_data_def enumerate_eq_zip

text \<open>
  The theorem of C4 at the store with a stale record \<open>doc_chunk_7\<close>, re-ingesting
  \<open>doc\<close> with two chunks: the stale record is gone, the new ones are there, the other
  document is untouched.
\<close>

theorem store_pdf_embeddings_replaces_witness:
  "filter (\<lambda>k. startswith k (''doc'' @ ''_''))
       (get_all_embeddings (store_pdf_embeddings unit_provider ''doc'' [''alpha'', ''beta''] stale_store))
     = [''doc_chunk_0'', ''doc_chunk_1'']
   \<and> get_embedding_data (store_pdf_embeddings unit_provider ''doc'' [''alpha'', ''beta''] stale_store)
        ''doc_chunk_1''
       = Some \<lparr>vector = [1], metadata = \<lparr>md_pdf_id = Some ''doc'', md_chunk_index = Some 1,
                               md_text = Some ''beta''\<rparr>\<rparr>
   \<and> get_embedding_data (store_pdf_embeddings unit_provider ''doc'' [''alpha'', ''beta''] stale_store)
        ''doc_chunk_7'' = None
   \<and> get_embedding_data (store_pdf_embeddings unit_provider ''doc'' [''alpha'', ''beta''] stale_store)
        ''other_chunk_0'' = get_embedding_data stale_store ''other_chunk_0''"
  using store_pdf_embeddings_replaces[of "''doc''" unit_provider "[''alpha'', ''beta'']" stale_store]
  by (simp add: eval_defs)

subsection \<open>Scoping by key prefix\<close>

lemma cleared_key:
  assumes "startswith k ((doc @ ''_'' @ rest) @ ''_'')"
  shows "get_embedding_data (clear_pdf_embeddings doc vs) k = None \<and> \<not> out_of_scope (Some doc) k"
proof -
  have p: "startswith k (doc @ ''_'')"
    using assms by (auto simp: startswith_def prefix_def)
  then have "map_of (filter (\<lambda>kv. \<not> startswith (fst kv) (doc @ ''_'')) (embeddings vs)) k = None"
    by (rule map_of_removed_keys)
  then show ?thesis
    using p
    by (simp add: get_embedding_data_def clear_pdf_embeddings_def
          remove_embeddings_by_prefix_filter out_of_scope_def)
qed

lemmas retrieval_defs =
  find_similar_chunks_def out_of_scope_def cosine_similarity_def np_any_def np_dot_def
  np_dot_sum_def np_linalg_norm_def binary64_zero binary64_one binary64_two binary64_four
  binary64_minus_one make_result_def sort_by_similarity_desc_def py_slice_to_def
  py_slice_index_def np_zeros_def

text \<open>
  Claim C10. Scoping by key prefix confuses a document id with every id that extends it
  by \<open>_\<close> and more: for all ids \<open>doc\<close> and \<open>doc_rest\<close>, a key of \<open>doc_rest\<close> (one that starts
  with \<open>doc_rest_\<close>) is deleted by \<open>clear_pdf_embeddings(doc)\<close> and is not skipped by a
  search scoped to \<open>doc\<close>. With \<open>doc\<close> and \<open>doc_2\<close>: after ingesting one chunk of \<open>doc_2\<close>
  into an empty store, clearing \<open>doc\<close> empties the store, and a search scoped to \<open>doc\<close>
  returns the chunk of \<open>doc_2\<close>.
\<close>

theorem prefix_scope_collision:
  "(\<forall>k. startswith k ((doc @ ''_'' @ rest) @ ''_'') \<longrightarrow>
        get_embedding_data (clear_pdf_embeddings doc vs) k = None
        \<and> \<not> out_of_scope (Some doc) k)
   \<and> ''doc'' \<noteq> ''doc_2''
   \<and> get_all_embeddings (store_pdf_embeddings unit_provider ''doc_2'' [''hello''] empty_store)
       = [''doc_2_chunk_0'']
   \<and> get_all_embeddings
        (clear_pdf_embeddings ''doc''
           (store_pdf_embeddings unit_provider ''doc_2'' [''hello''] empty_store)) = []
   \<and> find_similar_chunks unit_provider
        (store_pdf_embeddings unit_provider ''doc_2'' [''hello''] empty_store) ''q'' (Some ''doc'') 3
       = Inr [\<lparr>key = ''doc_2_chunk_0'', similarity = Fin 1, chunk_text = ''hello'',
               chunk_index = 0, pdf_id = ''doc_2''\<rparr>]"
proof -
  have "find_similar_chunks unit_provider
        (store_pdf_embeddings unit_provider ''doc_2'' [''hello''] empty_store) ''q'' (Some ''doc'') 3
       = Inr [\<lparr>key = ''doc_2_chunk_0'', similarity = Fin 1, chunk_text = ''hello'',
               chunk_index = 0, pdf_id = ''doc_2''\<rparr>]"
    by (simp add: eval_defs retrieval_defs)
  moreover have "get_all_embeddings
        (clear_pdf_embeddings ''doc''
           (store_pdf_embeddings unit_provider ''doc_2'' [''hello''] empty_store)) = []"
    by (simp add: eval_defs)
  moreover have "get_all_embeddings (store_pdf_embeddings unit_provider ''doc_2'' [''hello''] empty_store)
       = [''doc_2_chunk_0'']"
    by (simp add: eval_defs)
  ultimately show ?thesis
    using cleared_key by simp
qed

text \<open>The general part of C10 at the key \<open>doc_2_chunk_0\<close> of the store of the example.\<close>

theorem prefix_scope_collision_witness:
  "startswith ''doc_2_chunk_0'' ((''doc'' @ ''_'' @ ''2'') @ ''_'')
   \<and> get_embedding_data (store_pdf_embeddings unit_provider ''doc_2'' [''hello''] empty_store)
        ''doc_2_chunk_0''
       = Some \<lparr>vector = [1], metadata = \<lparr>md_pdf_id = Some ''doc_2'', md_chunk_index = Some 0,
                               md_text = Some ''hello''\<rparr>\<rparr>
   \<and> get_embedding_data
        (clear_pdf_embeddings ''doc''
           (store_pdf_embeddings unit_provider ''doc_2'' [''hello''] empty_store))
        ''doc_2_chunk_0'' = None
   \<and> \<not> out_of_scope (Some ''doc'') ''doc_2_chunk_0''"
proof -
  have s: "startswith ''doc_2_chunk_0'' ((''doc'' @ ''_'' @ ''2'') @ ''_'')"
    by (simp add: startswith_def)
  have e: "get_embedding_data (store_pdf_embeddings unit_provider ''doc_2'' [''hello''] empty_store)
        ''doc_2_chunk_0''
       = Some \<lparr>vector = [1], metadata = \<lparr>md_pdf_id = Some ''doc_2'', md_chunk_index = Some 0,
                               md_text = Some ''hello''\<rparr>\<rparr>"
    by (simp add: eval_defs)
  from prefix_scope_collision[of "''doc''" "''2''"
         "store_pdf_embeddings unit_provider ''doc_2'' [''hello''] empty_store"] s e
  show ?thesis by blast
qed

section \<open>Properties of the similarity search\<close>

subsection \<open>The order of floats\<close>




lemma fl_le_not_lt:
  assumes "fl_le a b"
  shows "\<not> fl_lt b a"
  using assms by (cases a; cases b) (auto simp: fl_le_def)

subsection \<open>The sort\<close>









text \<open>
  A list in which no element is less than its right neighbour is returned as it is;
  \<open>list.sort\<close> finds the reversed list to be a single run and does not move an element
  either.
\<close>

lemma sort_desc_run:
  assumes "successively (\<lambda>a b. \<not> fl_lt (similarity a) (similarity b)) xs"
  shows "sort_by_similarity_desc xs = xs"
  using assms
proof (induction xs rule: induct_list012)
  case 1
  show ?case by (simp add: sort_by_similarity_desc_def)
next
  case (2 x)
  show ?case by (simp add: sort_by_similarity_desc_def)
next
  case (3 x y zs)
  then have "sort_by_similarity_desc (y # zs) = y # zs"
    by simp
  then have "sort_by_similarity_desc (x # y # zs) = insert_desc x (y # zs)"
    by (simp add: sort_by_similarity_desc_def)
  with 3 show ?case by simp
qed

subsection \<open>The scan\<close>







subsection \<open>The examples\<close>



















section \<open>Properties of the generation client and of prompt context assembly\<close>

lemma format_lines_filter:
  "format_lines idx chunks acc = acc @ map render_entry (filter retained (enumerate idx chunks))"
  by (induction chunks arbitrary: idx acc) (simp_all add: retained_def render_entry_def)

lemma format_context_filter:
  "format_context chunks
     = str_join (newline @ newline) (map render_entry (filter retained (enumerate 1 chunks)))"
  by (simp add: format_context_def format_lines_filter)

lemma none_retained:
  assumes "list_all below_threshold chunks"
  shows "filter retained (enumerate n chunks) = []"
  using assms
  by (induction chunks arbitrary: n) (auto simp: retained_def below_threshold_def dest: fl_le_not_lt)

text \<open>
  Claim C6. If the call \<open>generate_content(prompt, stream=True)\<close> raises on the prompt the
  client builds, the generator of \<open>GeminiClient.stream_response\<close> yields exactly one
  fragment, \<open>[Error] \<close> followed by the text of the exception, and ends. So does the
  sequence that \<open>RAGService.stream_response\<close> returns once retrieval has returned its
  chunks: the result is a sequence (\<open>Inr\<close>), not the exception of the provider.
\<close>

theorem stream_error_fragment:
  "(model (build_prompt user_query ctx chat_history) = Inl e \<longrightarrow>
      gemini_stream_response model user_query ctx chat_history = [''[Error] '' @ e])
   \<and> (\<forall>chunks. find_similar_chunks provider vs user_query (Some doc) 3 = Inr chunks
         \<and> model (build_prompt user_query (format_context chunks) chat_history) = Inl e \<longrightarrow>
         rag_stream_response provider vs model user_query doc chat_history
           = Inr [''[Error] '' @ e])"
  by (simp add: gemini_stream_response_def rag_stream_response_def)

text \<open>The theorem of C6 at a provider that always raises \<open>quota exceeded\<close>.\<close>

theorem stream_error_fragment_witness:
  "failing_model (build_prompt ''q'' [] None) = Inl ''quota exceeded''
   \<and> gemini_stream_response failing_model ''q'' [] None = [''[Error] quota exceeded'']
   \<and> (\<exists>chunks. find_similar_chunks unit_provider ranked_store ''q'' (Some ''doc'') 3 = Inr chunks
         \<and> failing_model (build_prompt ''q'' (format_context chunks) None) = Inl ''quota exceeded'')
   \<and> rag_stream_response unit_provider ranked_store failing_model ''q'' ''doc'' None
       = Inr [''[Error] quota exceeded'']"
proof -
  have m: "failing_model p = Inl ''quota exceeded''" for p
    by (simp add: failing_model_def)
  obtain chunks where c: "find_similar_chunks unit_provider ranked_store ''q'' (Some ''doc'') 3
                            = Inr chunks"
    by (simp add: eval_defs retrieval_defs ranked_store_def)
  from stream_error_fragment[where model = failing_model and user_query = "''q''"
         and ctx = "[]" and chat_history = None and e = "''quota exceeded''"
         and provider = unit_provider and vs = ranked_store and doc = "''doc''"] m c
  show ?thesis by auto
qed

text \<open>
  Claim C8. The context is the join of the lines of exactly those chunks, with their
  positions, whose similarity is greater than the float \<open>0.05\<close>; a list in which no
  chunk exceeds it gives the empty string, and so does the list of a single chunk of
  similarity \<open>0.02\<close>.
\<close>

theorem format_context_threshold:
  "format_context chunks
     = str_join (newline @ newline) (map render_entry (filter retained (enumerate 1 chunks)))
   \<and> (list_all below_threshold chunks \<longrightarrow> format_context chunks = [])
   \<and> format_context [\<lparr>key = k, similarity = Fin float_0_02, chunk_text = t, chunk_index = i,
                       pdf_id = p\<rparr>] = []"
proof -
  have "format_context [\<lparr>key = k, similarity = Fin float_0_02, chunk_text = t, chunk_index = i,
                       pdf_id = p\<rparr>] = []"
    by (simp add: format_context_def float_0_02_def float_0_05_def)
  then show ?thesis
    by (simp add: format_context_filter none_retained)
qed

text \<open>
  The theorem of C8 at a list of two chunks, one at \<open>0.02\<close> and one exactly at the
  threshold, which is not strictly above it.
\<close>

theorem format_context_threshold_witness:
  "list_all below_threshold
     [\<lparr>key = ''a'', similarity = Fin float_0_02, chunk_text = ''x'', chunk_index = 0, pdf_id = ''d''\<rparr>,
      \<lparr>key = ''b'', similarity = Fin float_0_05, chunk_text = ''y'', chunk_index = 1, pdf_id = ''d''\<rparr>]
   \<and> format_context
     [\<lparr>key = ''a'', similarity = Fin float_0_02, chunk_text = ''x'', chunk_index = 0, pdf_id = ''d''\<rparr>,
      \<lparr>key = ''b'', similarity = Fin float_0_05, chunk_text = ''y'', chunk_index = 1, pdf_id = ''d''\<rparr>]
     = []"
proof -
  have b: "list_all below_threshold
     [\<lparr>key = ''a'', similarity = Fin float_0_02, chunk_text = ''x'', chunk_index = 0, pdf_id = ''d''\<rparr>,
      \<lparr>key = ''b'', similarity = Fin float_0_05, chunk_text = ''y'', chunk_index = 1, pdf_id = ''d''\<rparr>]"
    by (simp add: below_threshold_def fl_le_def float_0_02_def float_0_05_def)
  from format_context_threshold[of
     "[\<lparr>key = ''a'', similarity = Fin float_0_02, chunk_text = ''x'', chunk_index = 0, pdf_id = ''d''\<rparr>,
      \<lparr>key = ''b'', similarity = Fin float_0_05, chunk_text = ''y'', chunk_index = 1, pdf_id = ''d''\<rparr>]"] b
  show ?thesis by blast
qed

lemma round_half_even_nonneg: "0 \<le> x \<Longrightarrow> 0 \<le> round_half_even x"
proof -
  assume "0 \<le> x"
  then have "0 \<le> \<lfloor>x\<rfloor>" by simp
  then show ?thesis by (simp add: round_half_even_def)
qed

lemma format_2f_nonneg:
  assumes "0 \<le> x"
  shows "\<exists>n. format_2f x = str_nat (n div 100) @ ''.''
                 @ [digit_char (n mod 100 div 10), digit_char (n mod 10)]
             \<and> \<bar>x * 100 - real n\<bar> \<le> 1 / 2"
proof -
  let ?n = "nat (round_half_even (x * 100))"
  have nn: "0 \<le> round_half_even (x * 100)"
    using assms by (intro round_half_even_nonneg) simp
  then have "real ?n = of_int (round_half_even (x * 100))"
    by simp
  then have c: "\<bar>x * 100 - real ?n\<bar> \<le> 1 / 2"
    using round_half_even_close[of "x * 100"] by simp
  have "?n mod 100 mod 10 = ?n mod 10"
    by (simp add: mod_mod_cancel)
  then have "format_2f x = str_nat (?n div 100) @ ''.''
                 @ [digit_char (?n mod 100 div 10), digit_char (?n mod 10)]"
    using assms by (simp add: format_2f_def two_digits_def)
  with c show ?thesis by blast
qed

lemma retained_order:
  "map snd (filter retained (enumerate n chunks)) = filter (\<lambda>c. fl_lt (Fin float_0_05) (similarity c)) chunks"
  by (induction chunks arbitrary: n) (simp_all add: retained_def)

lemma enumerate_position:
  assumes "ic \<in> set (enumerate 1 chunks)"
  shows "0 < fst ic \<and> fst ic \<le> length chunks \<and> chunks ! (fst ic - 1) = snd ic"
proof -
  obtain i c where ic: "ic = (i, c)" by (cases ic)
  with assms have "1 \<le> i \<and> i < length chunks + 1 \<and> c = chunks ! (i - 1)"
    by (simp add: in_set_enumerate_eq)
  then show ?thesis by (auto simp: ic)
qed

text \<open>
  Claim C9. The context is the lines of the retained chunks joined by a blank line. The
  retained chunks are those above the threshold, in their given order; each line is
  \<open>[Chunk i sim=s]\<close>, a newline and the raw text of the chunk, where \<open>i\<close> is the position
  of the chunk in the list given to \<open>_format_context\<close>, counted from 1 (not its position
  among the retained chunks), and \<open>s\<close> is the similarity with two decimals: for a
  similarity that is not negative, the digits of an integer \<open>n\<close> with
  \<open>|100 * similarity - n| \<le> 1/2\<close>, a point before the last two.
\<close>

theorem format_context_layout:
  "format_context chunks
     = str_join (newline @ newline)
         (map (\<lambda>ic. ''[Chunk '' @ str_nat (fst ic) @ '' sim='' @ float_format_2f (similarity (snd ic))
                      @ '']'' @ newline @ chunk_text (snd ic))
            (filter retained (zip [1..<Suc (length chunks)] chunks)))
   \<and> map snd (filter retained (zip [1..<Suc (length chunks)] chunks))
       = filter (\<lambda>c. fl_lt (Fin float_0_05) (similarity c)) chunks
   \<and> (\<forall>ic\<in>set (filter retained (zip [1..<Suc (length chunks)] chunks)).
         0 < fst ic \<and> fst ic \<le> length chunks \<and> chunks ! (fst ic - 1) = snd ic)
   \<and> (\<forall>x. 0 \<le> x \<longrightarrow>
         (\<exists>n. float_format_2f (Fin x) = str_nat (n div 100) @ ''.''
                  @ [digit_char (n mod 100 div 10), digit_char (n mod 10)]
              \<and> \<bar>x * 100 - real n\<bar> \<le> 1 / 2))"
proof -
  have e: "zip [1..<Suc (length chunks)] chunks = enumerate 1 chunks"
    by (simp add: enumerate_eq_zip)
  have r: "render_entry = (\<lambda>ic. ''[Chunk '' @ str_nat (fst ic) @ '' sim=''
                      @ float_format_2f (similarity (snd ic)) @ '']'' @ newline @ chunk_text (snd ic))"
    by (rule ext) (simp add: render_entry_def render_chunk_def)
  have a: "format_context chunks
     = str_join (newline @ newline)
         (map (\<lambda>ic. ''[Chunk '' @ str_nat (fst ic) @ '' sim='' @ float_format_2f (similarity (snd ic))
                      @ '']'' @ newline @ chunk_text (snd ic))
            (filter retained (zip [1..<Suc (length chunks)] chunks)))"
    unfolding e r[symmetric] by (rule format_context_filter)
  have b: "map snd (filter retained (zip [1..<Suc (length chunks)] chunks))
       = filter (\<lambda>c. fl_lt (Fin float_0_05) (similarity c)) chunks"
    unfolding e by (rule retained_order)
  have c: "\<forall>ic\<in>set (filter retained (zip [1..<Suc (length chunks)] chunks)).
         0 < fst ic \<and> fst ic \<le> length chunks \<and> chunks ! (fst ic - 1) = snd ic"
    unfolding e
  proof
    fix ic assume "ic \<in> set (filter retained (enumerate 1 chunks))"
    then have "ic \<in> set (enumerate 1 chunks)" by simp
    then show "0 < fst ic \<and> fst ic \<le> length chunks \<and> chunks ! (fst ic - 1) = snd ic"
      by (rule enumerate_position)
  qed
  have d: "\<forall>x. 0 \<le> x \<longrightarrow>
         (\<exists>n. float_format_2f (Fin x) = str_nat (n div 100) @ ''.''
                  @ [digit_char (n mod 100 div 10), digit_char (n mod 10)]
              \<and> \<bar>x * 100 - real n\<bar> \<le> 1 / 2)"
    using format_2f_nonneg by simp
  from a b c d show ?thesis by blast
qed

lemma mixed_context:
  "format_context mixed_chunks
     = ''[Chunk 1 sim=0.88]'' @ newline @ ''first'' @ newline @ newline
       @ ''[Chunk 3 sim=0.12]'' @ newline @ ''third''"
  by (simp add: format_context_def mixed_chunks_def render_chunk_def format_2f_def
        round_half_even_def two_digits_def str_nat.simps digit_char_def float_0_05_def
        float_0_02_def)

text \<open>
  The theorem of C9 at three chunks of which the second is dropped: the third keeps
  position 3, and the ties \<open>0.875\<close> and \<open>0.125\<close> are rendered \<open>0.88\<close> and \<open>0.12\<close>.
\<close>

theorem format_context_layout_witness:
  "format_context mixed_chunks
     = ''[Chunk 1 sim=0.88]'' @ newline @ ''first'' @ newline @ newline
       @ ''[Chunk 3 sim=0.12]'' @ newline @ ''third''
   \<and> map snd (filter retained (zip [1..<Suc (length mixed_chunks)] mixed_chunks))
       = [mixed_chunks ! 0, mixed_chunks ! 2]
   \<and> (0::real) \<le> 7 / 8
   \<and> (\<exists>n. float_format_2f (Fin (7 / 8)) = str_nat (n div 100) @ ''.''
                  @ [digit_char (n mod 100 div 10), digit_char (n mod 10)]
          \<and> \<bar>7 / 8 * 100 - real n\<bar> \<le> 1 / 2)"
proof -
  have f: "filter (\<lambda>c. fl_lt (Fin float_0_05) (similarity c)) mixed_chunks
             = [mixed_chunks ! 0, mixed_chunks ! 2]"
    by (simp add: mixed_chunks_def float_0_05_def float_0_02_def)
  have p: "(0::real) \<le> 7 / 8" by simp
  have b: "map snd (filter retained (zip [1..<Suc (length mixed_chunks)] mixed_chunks))
             = [mixed_chunks ! 0, mixed_chunks ! 2]"
    using format_context_layout[of mixed_chunks, THEN conjunct2, THEN conjunct1] f
    by (rule trans)
  have d: "\<exists>n. float_format_2f (Fin (7 / 8)) = str_nat (n div 100) @ ''.''
                  @ [digit_char (n mod 100 div 10), digit_char (n mod 10)]
          \<and> \<bar>7 / 8 * 100 - real n\<bar> \<le> 1 / 2"
    using format_context_layout[of mixed_chunks, THEN conjunct2, THEN conjunct2,
            THEN conjunct2, THEN spec, THEN mp, OF p] .
  show ?thesis
    apply (intro conjI)
       apply (rule mixed_context)
      apply (rule b)
     apply (rule p)
    apply (rule d)
    done
qed

section \<open>Properties of the cosine similarity\<close>

subsection \<open>Symmetry and the zero vector\<close>








subsection \<open>A vector against itself\<close>






subsection \<open>The examples\<close>







lemma cosine_similarity_against_zero:
  "cosine_similarity [3, 4] [0, 0] = Inr (Fin 0)"
  and "cosine_similarity [0, 0] [3, 4] = Inr (Fin 0)"
  by (simp_all add: cosine_similarity_def np_any_def)




end
